theory Spec2Isabelle
  imports Complex_Main "HOL-Library.AList"
begin

section \<open>Values and documents\<close>

text \<open>
  The router \<^verbatim>\<open>src/server/src/routes/people-mongo.js\<close> moves JSON values between the
  HTTP request, the response and the collections \<^verbatim>\<open>people\<close>, \<^verbatim>\<open>pets\<close> and \<^verbatim>\<open>cars\<close>.
  One datatype holds them all.  A JavaScript number is a rational here (every double is
  one; rounding of arithmetic on doubles is not modelled).  An object is an association
  list in insertion order, read at the first entry of a key; an object identifier is its
  twelve bytes.
\<close>

type_synonym oid = "nat list"

datatype val =
    VNull
  | VBool bool
  | VNum rat
  | VStr string
  | VOid oid
  | VArr "val list"
  | VDoc "(string \<times> val) list"

type_synonym document = "(string \<times> val) list"

definition fld :: "string \<Rightarrow> document \<Rightarrow> val option" where
  "fld k d = map_of d k"

datatype error = BSONTypeError | StorageError | DuplicateKey | NotAnArray

subsection \<open>The driver's \<^verbatim>\<open>ObjectId(string)\<close>\<close>

text \<open>
  \<^verbatim>\<open>ObjectId(id)\<close> of the mongodb driver takes a string of 12 bytes or of 24 hexadecimal
  characters and throws on every other string.
\<close>

definition hex_digit :: "char \<Rightarrow> nat option" where
  "hex_digit c =
     (let n = (of_char c :: nat) in
      if 48 \<le> n \<and> n \<le> 57 then Some (n - 48)
      else if 97 \<le> n \<and> n \<le> 102 then Some (n - 87)
      else if 65 \<le> n \<and> n \<le> 70 then Some (n - 55)
      else None)"

fun unhex :: "string \<Rightarrow> nat list option" where
  "unhex [] = Some []"
| "unhex [c] = None"
| "unhex (a # b # cs) =
     (case hex_digit a of
        None \<Rightarrow> None
      | Some h \<Rightarrow>
         (case hex_digit b of
            None \<Rightarrow> None
          | Some l \<Rightarrow>
             (case unhex cs of
                None \<Rightarrow> None
              | Some bs \<Rightarrow> Some ((16 * h + l) # bs))))"

definition ObjectId :: "string \<Rightarrow> error + oid" where
  "ObjectId s =
     (if length s = 12 then Inr (map of_char s)
      else if length s = 24 then
        (case unhex s of None \<Rightarrow> Inl BSONTypeError | Some bs \<Rightarrow> Inr bs)
      else Inl BSONTypeError)"

section \<open>The collection accessor\<close>

text \<open>
  \<^verbatim>\<open>req.peopleCollection\<close> is a handle on the \<^verbatim>\<open>people\<close> collection; the aggregation
  stages reach \<^verbatim>\<open>pets\<close> and \<^verbatim>\<open>cars\<close> through it.  Every call is awaited inside a
  \<^verbatim>\<open>try\<close> block and may reject: \<open>online\<close> says whether the storage answers, and a call
  on a store that is not online is the error \<open>StorageError\<close>.
\<close>

record store =
  people :: "document list"
  pets :: "document list"
  cars :: "document list"
  online :: bool

definition has_id :: "val \<Rightarrow> document \<Rightarrow> bool" where
  "has_id v d = (fld ''_id'' d = Some v)"

definition find_by_id :: "val \<Rightarrow> document list \<Rightarrow> document option" where
  "find_by_id v ds = find (has_id v) ds"

definition unique_ids :: "document list \<Rightarrow> bool" where
  "unique_ids ds = distinct (map (fld ''_id'') ds)"

definition collection :: "store \<Rightarrow> string \<Rightarrow> document list" where
  "collection st n =
     (if n = ''people'' then people st
      else if n = ''pets'' then pets st
      else if n = ''cars'' then cars st
      else [])"

text \<open>\<^verbatim>\<open>find().toArray()\<close>: every document of the collection.\<close>

definition find_all :: "store \<Rightarrow> error + document list" where
  "find_all st = (if online st then Inr (people st) else Inl StorageError)"

text \<open>
  \<^verbatim>\<open>insertOne(doc)\<close>: a document without \<^verbatim>\<open>_id\<close> gets the identifier the driver
  generates (\<open>fresh\<close>), written into the argument itself; the collection's unique index
  on \<^verbatim>\<open>_id\<close> refuses an identifier it already holds.
\<close>

definition insertOne :: "store \<Rightarrow> oid \<Rightarrow> document \<Rightarrow> error + document \<times> store" where
  "insertOne st fresh doc =
     (if \<not> online st then Inl StorageError
      else
        let i = (case fld ''_id'' doc of None \<Rightarrow> VOid fresh | Some v \<Rightarrow> v);
            doc' = AList.update ''_id'' i doc
        in if list_ex (has_id i) (people st) then Inl DuplicateKey
           else Inr (doc', st\<lparr>people := people st @ [doc']\<rparr>))"

text \<open>\<^verbatim>\<open>deleteOne({_id: v})\<close>: the first matching document goes, if there is one.\<close>

fun delete_first :: "(document \<Rightarrow> bool) \<Rightarrow> document list \<Rightarrow> document list" where
  "delete_first p [] = []"
| "delete_first p (d # ds) = (if p d then ds else d # delete_first p ds)"

definition deleteOne :: "store \<Rightarrow> val \<Rightarrow> error + store" where
  "deleteOne st v =
     (if online st then Inr (st\<lparr>people := delete_first (has_id v) (people st)\<rparr>)
      else Inl StorageError)"

text \<open>
  \<^verbatim>\<open>updateOne({_id: v}, {$set: u})\<close> and \<^verbatim>\<open>updateOne({_id: v}, {$push: {k: x}})\<close>: the
  update is applied to the first matching document.  \<^verbatim>\<open>$set\<close> writes the fields in the
  order of the update object, a new field at the end; \<^verbatim>\<open>$push\<close> appends to an array,
  creates it when the field is missing, and is refused on a field that is no array.
\<close>

datatype update = Set document | Push string val

fun apply_update :: "update \<Rightarrow> document \<Rightarrow> error + document" where
  "apply_update (Set u) d = Inr (fold (\<lambda>(k, v). AList.update k v) u d)"
| "apply_update (Push k x) d =
     (case fld k d of
        None \<Rightarrow> Inr (AList.update k (VArr [x]) d)
      | Some (VArr xs) \<Rightarrow> Inr (AList.update k (VArr (xs @ [x])) d)
      | Some _ \<Rightarrow> Inl NotAnArray)"

fun update_first ::
  "(document \<Rightarrow> bool) \<Rightarrow> (document \<Rightarrow> error + document) \<Rightarrow> document list \<Rightarrow> error + document list"
where
  "update_first p f [] = Inr []"
| "update_first p f (d # ds) =
     (if p d then (case f d of Inl e \<Rightarrow> Inl e | Inr d' \<Rightarrow> Inr (d' # ds))
      else (case update_first p f ds of Inl e \<Rightarrow> Inl e | Inr ds' \<Rightarrow> Inr (d # ds')))"

definition updateOne :: "store \<Rightarrow> val \<Rightarrow> update \<Rightarrow> error + store" where
  "updateOne st v u =
     (if \<not> online st then Inl StorageError
      else
        (case update_first (has_id v) (apply_update u) (people st) of
           Inl e \<Rightarrow> Inl e
         | Inr ds \<Rightarrow> Inr (st\<lparr>people := ds\<rparr>)))"

text \<open>
  The \<^verbatim>\<open>petIds\<close> of a person: an ordered sequence of pet identifiers, empty when the
  field is absent.
\<close>

definition petIds :: "document \<Rightarrow> val list option" where
  "petIds p =
     (case fld ''petIds'' p of
        None \<Rightarrow> Some []
      | Some (VArr xs) \<Rightarrow> Some xs
      | Some _ \<Rightarrow> None)"

subsection \<open>Aggregation stages\<close>

text \<open>
  The stages the router's three pipelines are made of:
  \<^item> \<open>Match_id v\<close> is \<^verbatim>\<open>{$match: {_id: v}}\<close>;
  \<^item> \<open>Group_avg i out f\<close> is \<^verbatim>\<open>{$group: {_id: i, out: {$avg: "$f"}}}\<close> with a constant
    \<open>i\<close>: one group when there is a document, none when there is none; \<^verbatim>\<open>$avg\<close> skips
    values that are no numbers and is null when it has skipped them all;
  \<^item> \<open>Lookup coll l f out\<close> is \<^verbatim>\<open>{$lookup: {from, localField, foreignField, as}}\<close>: an
    equality match, a missing field counting as null and a local array matching by its
    elements;
  \<^item> \<open>Lookup_in coll l out\<close> is the \<^verbatim>\<open>$lookup\<close> with \<^verbatim>\<open>let: {ids: "$l"}\<close> and the nested
    pipeline \<^verbatim>\<open>[{$match: {$expr: {$in: ["$_id", "$$ids"]}}}]\<close>; \<^verbatim>\<open>$in\<close> is evaluated on
    each document of \<open>coll\<close> and fails when \<^verbatim>\<open>$$ids\<close> is no array;
  \<^item> \<open>Unset ks\<close> is \<^verbatim>\<open>{$unset: ks}\<close>.
\<close>

datatype stage =
    Match_id val
  | Group_avg string string string
  | Lookup string string string string
  | Lookup_in string string string
  | Unset "string list"

fun num_of :: "val option \<Rightarrow> rat list" where
  "num_of (Some (VNum r)) = [r]"
| "num_of _ = []"

definition avg :: "val option list \<Rightarrow> val" where
  "avg vs =
     (let ns = concat (map num_of vs)
      in if ns = [] then VNull else VNum (sum_list ns / of_nat (length ns)))"

definition lookup_eq :: "val option \<Rightarrow> val option \<Rightarrow> bool" where
  "lookup_eq l f =
     (let fv = (case f of None \<Rightarrow> VNull | Some v \<Rightarrow> v)
      in case l of
           None \<Rightarrow> fv = VNull
         | Some (VArr xs) \<Rightarrow> fv \<in> set xs
         | Some v \<Rightarrow> fv = v)"

definition id_in :: "val list \<Rightarrow> document \<Rightarrow> bool" where
  "id_in ids p = (case fld ''_id'' p of None \<Rightarrow> False | Some i \<Rightarrow> i \<in> set ids)"

definition lookup_in :: "document list \<Rightarrow> string \<Rightarrow> string \<Rightarrow> document \<Rightarrow> error + document" where
  "lookup_in foreign l out d =
     (if foreign = [] then Inr (AList.update out (VArr []) d)
      else
        (case fld l d of
           Some (VArr ids) \<Rightarrow>
             Inr (AList.update out (VArr (map VDoc (filter (id_in ids) foreign))) d)
         | _ \<Rightarrow> Inl NotAnArray))"

fun mapM :: "('a \<Rightarrow> error + 'b) \<Rightarrow> 'a list \<Rightarrow> error + 'b list" where
  "mapM f [] = Inr []"
| "mapM f (x # xs) =
     (case f x of
        Inl e \<Rightarrow> Inl e
      | Inr y \<Rightarrow> (case mapM f xs of Inl e \<Rightarrow> Inl e | Inr ys \<Rightarrow> Inr (y # ys)))"

fun run_stage :: "store \<Rightarrow> stage \<Rightarrow> document list \<Rightarrow> error + document list" where
  "run_stage st (Match_id v) ds = Inr (filter (has_id v) ds)"
| "run_stage st (Group_avg i out f) ds =
     Inr (if ds = [] then [] else [[(''_id'', VStr i), (out, avg (map (fld f) ds))]])"
| "run_stage st (Lookup coll l f out) ds =
     Inr (map (\<lambda>d. AList.update out
                 (VArr (map VDoc (filter (\<lambda>c. lookup_eq (fld l d) (fld f c)) (collection st coll)))) d)
            ds)"
| "run_stage st (Lookup_in coll l out) ds = mapM (lookup_in (collection st coll) l out) ds"
| "run_stage st (Unset ks) ds = Inr (map (\<lambda>d. fold AList.delete ks d) ds)"

fun run_pipeline :: "store \<Rightarrow> stage list \<Rightarrow> document list \<Rightarrow> error + document list" where
  "run_pipeline st [] ds = Inr ds"
| "run_pipeline st (s # ss) ds =
     (case run_stage st s ds of Inl e \<Rightarrow> Inl e | Inr ds' \<Rightarrow> run_pipeline st ss ds')"

text \<open>\<^verbatim>\<open>aggregate(pipeline).toArray()\<close> on the people collection.\<close>

definition aggregate :: "store \<Rightarrow> stage list \<Rightarrow> error + document list" where
  "aggregate st p = (if online st then run_pipeline st p (people st) else Inl StorageError)"

section \<open>The validation layer\<close>

text \<open>
  express-validator: each chain declared on a route runs before the handler and records
  its failures in the request; the handler sees them only through
  \<^verbatim>\<open>validationResult(req)\<close>.  A failure is an object with the offending value (when there
  is one), the message, the field and its location.
\<close>

definition verr :: "string \<Rightarrow> string \<Rightarrow> val option \<Rightarrow> string \<Rightarrow> val" where
  "verr loc p v m =
     VDoc ((case v of None \<Rightarrow> [] | Some x \<Rightarrow> [(''value'', x)])
           @ [(''msg'', VStr m), (''param'', VStr p), (''location'', VStr loc)])"

text \<open>\<^verbatim>\<open>body(fields, m).exists()\<close>: the field is not \<^verbatim>\<open>undefined\<close>.\<close>

definition body_exists :: "string list \<Rightarrow> string \<Rightarrow> document \<Rightarrow> val list" where
  "body_exists ks m b =
     concat (map (\<lambda>f. case fld f b of None \<Rightarrow> [verr ''body'' f None m] | Some _ \<Rightarrow> []) ks)"

text \<open>\<^verbatim>\<open>body(fields).isString()\<close>: the field is a string.\<close>

definition body_isString :: "string list \<Rightarrow> document \<Rightarrow> val list" where
  "body_isString ks b =
     concat (map (\<lambda>f. case fld f b of
                         Some (VStr _) \<Rightarrow> []
                       | v \<Rightarrow> [verr ''body'' f v ''Invalid value''])
              ks)"

text \<open>
  \<^verbatim>\<open>isFloat({min, max})\<close> reads the value as a string: an optional sign, digits, an
  optional fraction, an optional exponent, with a digit in the mantissa, and the number
  it denotes within the bounds.  A JSON number is read back as itself.  Null, booleans,
  arrays and objects are taken not to be floats.
\<close>

definition is_digit :: "char \<Rightarrow> bool" where
  "is_digit c = (let n = (of_char c :: nat) in 48 \<le> n \<and> n \<le> 57)"

definition digits_val :: "string \<Rightarrow> nat" where
  "digits_val ds = foldl (\<lambda>a c. 10 * a + (of_char c - 48)) 0 ds"

definition strip_sign :: "string \<Rightarrow> bool \<times> string" where
  "strip_sign s =
     (case s of
        [] \<Rightarrow> (False, [])
      | c # cs \<Rightarrow>
          if c = CHR ''-'' then (True, cs)
          else if c = CHR ''+'' then (False, cs)
          else (False, s))"

definition exponent :: "string \<Rightarrow> int option" where
  "exponent s =
     (case s of
        [] \<Rightarrow> Some 0
      | c # cs \<Rightarrow>
          if c = CHR ''e'' \<or> c = CHR ''E'' then
            (let (neg, ds) = strip_sign cs
             in if ds \<noteq> [] \<and> list_all is_digit ds
                then Some (if neg then - int (digits_val ds) else int (digits_val ds))
                else None)
          else None)"

definition float_string :: "string \<Rightarrow> rat option" where
  "float_string s =
     (let (neg, s1) = strip_sign s;
          ip = takeWhile is_digit s1;
          s2 = dropWhile is_digit s1;
          (fp, s3) = (case s2 of
                        [] \<Rightarrow> ([], [])
                      | c # cs \<Rightarrow>
                          if c = CHR ''.'' then (takeWhile is_digit cs, dropWhile is_digit cs)
                          else ([], s2))
      in if ip = [] \<and> fp = [] then None
         else
           (case exponent s3 of
              None \<Rightarrow> None
            | Some e \<Rightarrow>
                Some ((if neg then - 1 else 1)
                      * (of_nat (digits_val ip) + of_nat (digits_val fp) / 10 ^ length fp)
                      * (if 0 \<le> e then 10 ^ nat e else 1 / 10 ^ nat (- e)))))"

definition isFloat :: "rat \<Rightarrow> rat \<Rightarrow> val option \<Rightarrow> bool" where
  "isFloat lo hi v =
     (case v of
        Some (VNum r) \<Rightarrow> lo \<le> r \<and> r \<le> hi
      | Some (VStr s) \<Rightarrow> (case float_string s of None \<Rightarrow> False | Some r \<Rightarrow> lo \<le> r \<and> r \<le> hi)
      | _ \<Rightarrow> False)"

definition body_isFloat :: "string \<Rightarrow> rat \<Rightarrow> rat \<Rightarrow> document \<Rightarrow> val list" where
  "body_isFloat f lo hi b =
     (if isFloat lo hi (fld f b) then [] else [verr ''body'' f (fld f b) ''Invalid value''])"

text \<open>
  The custom validator of the PATCH route,
  \<^verbatim>\<open>body(undefined, "Bad model").custom(body => ...)\<close>: no key of the body lies outside
  \<^verbatim>\<open>allowedFields\<close>.
\<close>

definition allowedFields :: "string list" where
  "allowedFields = [''name'', ''lastname'', ''age'']"

definition body_model :: "document \<Rightarrow> val list" where
  "body_model b =
     (let notAllowed = list_ex (\<lambda>key. key \<notin> set allowedFields) (map fst b)
      in if notAllowed then [verr ''body'' [] (Some (VDoc b)) ''Bad model''] else [])"

text \<open>
  Modelled from the spec: \<^verbatim>\<open>validatePersonId\<close>, \<^verbatim>\<open>validatePetId\<close> and \<^verbatim>\<open>validateCarId\<close>
  of \<^verbatim>\<open>utils/validators.js\<close>, which is not among the sources.  The specification has
  them accept an identifier that is syntactically valid and references an existing
  document of its collection; a validator that cannot read the collection rejects.
\<close>

definition validateId :: "store \<Rightarrow> string \<Rightarrow> string \<Rightarrow> bool" where
  "validateId st coll i =
     (case ObjectId i of
        Inl _ \<Rightarrow> False
      | Inr x \<Rightarrow> online st \<and> list_ex (has_id (VOid x)) (collection st coll))"

definition validatePersonId :: "store \<Rightarrow> string \<Rightarrow> bool" where
  "validatePersonId st i = validateId st ''people'' i"

definition validatePetId :: "store \<Rightarrow> string \<Rightarrow> bool" where
  "validatePetId st i = validateId st ''pets'' i"

definition validateCarId :: "store \<Rightarrow> string \<Rightarrow> bool" where
  "validateCarId st i = validateId st ''cars'' i"

text \<open>\<^verbatim>\<open>param(p).custom(validator)\<close>.\<close>

definition param_custom :: "string \<Rightarrow> bool \<Rightarrow> string \<Rightarrow> val list" where
  "param_custom p ok v = (if ok then [] else [verr ''params'' p (Some (VStr v)) ''Invalid value''])"

section \<open>Responses\<close>

record response =
  status :: nat
  body :: val

text \<open>\<^verbatim>\<open>res.send(x)\<close> answers 200; \<^verbatim>\<open>res.status(n).send(x)\<close> answers \<open>n\<close>.\<close>

definition send :: "val \<Rightarrow> response" where
  "send x = \<lparr>status = 200, body = x\<rparr>"

definition send_status :: "nat \<Rightarrow> val \<Rightarrow> response" where
  "send_status n x = \<lparr>status = n, body = x\<rparr>"

text \<open>
  Modelled from the spec: \<^verbatim>\<open>sendError\<close> of \<^verbatim>\<open>utils/error.js\<close>, which is not among the
  sources.  The specification has it answer 500 with a generic message.
\<close>

definition sendError :: "error \<Rightarrow> response" where
  "sendError e = send_status 500 (VDoc [(''error'', VStr ''Internal Server Error'')])"

text \<open>
  Modelled from the spec: the constructor of \<^verbatim>\<open>models/Person.js\<close>, which is not among the
  sources.  The specification has the created person carry the submitted name, lastname
  and age unchanged.
\<close>

definition Person :: "document \<Rightarrow> document" where
  "Person b =
     concat (map (\<lambda>k. case fld k b of None \<Rightarrow> [] | Some v \<Rightarrow> [(k, v)])
              [''name'', ''lastname'', ''age''])"

section \<open>The routes\<close>

text \<open>
  A handler takes the path parameters and the body of the request and the store, and
  gives the response and the store it leaves.  For a route that declares validation
  chains, \<open>\<dots>_chains\<close> is what \<^verbatim>\<open>validationResult(req).array()\<close> holds when the handler
  starts.  Values the environment supplies are arguments: the identifier the driver
  generates for an insert (\<open>fresh\<close>) and the reading of \<^verbatim>\<open>Date.now()\<close> (\<open>now\<close>).
\<close>

definition invalid :: "val list \<Rightarrow> response" where
  "invalid errors = send_status 400 (VDoc [(''errors'', VArr errors)])"

subsection \<open>\<^verbatim>\<open>GET /\<close>\<close>

definition get_root :: "store \<Rightarrow> response \<times> store" where
  "get_root st =
     (case find_all st of
        Inl e \<Rightarrow> (sendError e, st)
      | Inr found \<Rightarrow> (send (VArr (map VDoc found)), st))"

subsection \<open>\<^verbatim>\<open>POST /\<close>\<close>

definition post_root_chains :: "document \<Rightarrow> val list" where
  "post_root_chains b =
     body_exists [''name'', ''lastname'', ''age''] ''Missing param'' b
     @ body_isString [''name'', ''lastname''] b
     @ body_isFloat ''age'' 1 150 b"

definition post_root :: "document \<Rightarrow> oid \<Rightarrow> store \<Rightarrow> response \<times> store" where
  "post_root b fresh st =
     (let errors = post_root_chains b
      in if errors \<noteq> [] then (invalid errors, st)
         else
           (case insertOne st fresh (Person b) of
              Inl e \<Rightarrow> (sendError e, st)
            | Inr (person, st') \<Rightarrow> (send (VDoc person), st')))"

subsection \<open>\<^verbatim>\<open>DELETE /person/:id\<close>\<close>

text \<open>
  The route declares \<^verbatim>\<open>param("id").custom(validatePersonId)\<close>; its handler never calls
  \<^verbatim>\<open>validationResult\<close>.
\<close>

definition delete_person_chains :: "string \<Rightarrow> store \<Rightarrow> val list" where
  "delete_person_chains i st = param_custom ''id'' (validatePersonId st i) i"

definition delete_person :: "string \<Rightarrow> store \<Rightarrow> response \<times> store" where
  "delete_person i st =
     (case ObjectId i of
        Inl e \<Rightarrow> (sendError e, st)
      | Inr x \<Rightarrow>
          (case deleteOne st (VOid x) of
             Inl e \<Rightarrow> (sendError e, st)
           | Inr st' \<Rightarrow> (send (VDoc [(''deletedPersonId'', VStr i)]), st')))"

subsection \<open>\<^verbatim>\<open>PATCH /person/:id\<close>\<close>

definition patch_person_chains :: "string \<Rightarrow> document \<Rightarrow> store \<Rightarrow> val list" where
  "patch_person_chains i b st = param_custom ''id'' (validatePersonId st i) i @ body_model b"

definition patch_person :: "string \<Rightarrow> document \<Rightarrow> int \<Rightarrow> store \<Rightarrow> response \<times> store" where
  "patch_person i b now st =
     (let errors = patch_person_chains i b st
      in if errors \<noteq> [] then (invalid errors, st)
         else
           let upd = AList.update ''updatedAt'' (VNum (of_int now)) b
           in (case ObjectId i of
                 Inl e \<Rightarrow> (sendError e, st)
               | Inr x \<Rightarrow>
                   (case updateOne st (VOid x) (Set upd) of
                      Inl e \<Rightarrow> (sendError e, st)
                    | Inr st' \<Rightarrow> (send (VDoc [(''updatedPersonId'', VStr i)]), st'))))"

subsection \<open>\<^verbatim>\<open>GET /average/age\<close>\<close>



subsection \<open>\<^verbatim>\<open>POST /person/:id/pet/:petId\<close>\<close>

definition post_person_pet_chains :: "string \<Rightarrow> string \<Rightarrow> store \<Rightarrow> val list" where
  "post_person_pet_chains i petId st =
     param_custom ''id'' (validatePersonId st i) i
     @ param_custom ''petId'' (validatePetId st petId) petId"

definition post_person_pet :: "string \<Rightarrow> string \<Rightarrow> store \<Rightarrow> response \<times> store" where
  "post_person_pet i petId st =
     (let errors = post_person_pet_chains i petId st
      in if errors \<noteq> [] then (invalid errors, st)
         else
           (case ObjectId i of
              Inl e \<Rightarrow> (sendError e, st)
            | Inr x \<Rightarrow>
                (case ObjectId petId of
                   Inl e \<Rightarrow> (sendError e, st)
                 | Inr p \<Rightarrow>
                     (case updateOne st (VOid x) (Push ''petIds'' (VOid p)) of
                        Inl e \<Rightarrow> (sendError e, st)
                      | Inr st' \<Rightarrow>
                          (send (VDoc [(''addedPetId'', VStr petId), (''updatedPersonId'', VStr i)]),
                           st')))))"

subsection \<open>\<^verbatim>\<open>GET /person/:id/pets\<close>\<close>

definition get_person_pets_chains :: "string \<Rightarrow> store \<Rightarrow> val list" where
  "get_person_pets_chains i st = param_custom ''id'' (validatePersonId st i) i"

definition get_person_pets :: "string \<Rightarrow> store \<Rightarrow> response \<times> store" where
  "get_person_pets i st =
     (let errors = get_person_pets_chains i st
      in if errors \<noteq> [] then (invalid errors, st)
         else
           (case ObjectId i of
              Inl e \<Rightarrow> (sendError e, st)
            | Inr x \<Rightarrow>
                (let pipeline =
                       [Match_id (VOid x), Lookup_in ''pets'' ''petIds'' ''pets'', Unset [''petIds'']]
                 in case aggregate st pipeline of
                      Inl e \<Rightarrow> (sendError e, st)
                    | Inr result \<Rightarrow> (send (VArr (map VDoc result)), st))))"

subsection \<open>\<^verbatim>\<open>GET /person/:id/car\<close>\<close>

text \<open>
  The route declares \<^verbatim>\<open>param("id").custom(validatePersonId)\<close>; its handler neither calls
  \<^verbatim>\<open>validationResult\<close> nor reads \<^verbatim>\<open>req.params\<close>.
\<close>

definition get_person_car_chains :: "string \<Rightarrow> store \<Rightarrow> val list" where
  "get_person_car_chains i st = param_custom ''id'' (validatePersonId st i) i"

definition get_person_car :: "string \<Rightarrow> store \<Rightarrow> response \<times> store" where
  "get_person_car i st =
     (let pipeline = [Lookup ''cars'' ''carId'' ''_id'' ''car'', Unset [''carId'']]
      in case aggregate st pipeline of
           Inl e \<Rightarrow> (sendError e, st)
         | Inr result \<Rightarrow> (send (VArr (map VDoc result)), st))"

subsection \<open>\<^verbatim>\<open>POST /person/:id/car/:carId\<close>\<close>

definition post_person_car_chains :: "string \<Rightarrow> string \<Rightarrow> store \<Rightarrow> val list" where
  "post_person_car_chains i carId st =
     param_custom ''id'' (validatePersonId st i) i
     @ param_custom ''carId'' (validateCarId st carId) carId"

definition post_person_car :: "string \<Rightarrow> string \<Rightarrow> store \<Rightarrow> response \<times> store" where
  "post_person_car i carId st =
     (let errors = post_person_car_chains i carId st
      in if errors \<noteq> [] then (invalid errors, st)
         else
           (case ObjectId i of
              Inl e \<Rightarrow> (sendError e, st)
            | Inr x \<Rightarrow>
                (case ObjectId carId of
                   Inl e \<Rightarrow> (sendError e, st)
                 | Inr c \<Rightarrow>
                     (case updateOne st (VOid x) (Set [(''carId'', VOid c)]) of
                        Inl e \<Rightarrow> (sendError e, st)
                      | Inr st' \<Rightarrow>
                          (send (VDoc [(''updatedPersonId'', VStr i), (''newCarId'', VStr carId)]),
                           st')))))"

section \<open>Example data\<close>

text \<open>A person with a well-formed identifier, and a store that holds her alone.\<close>

definition ann_id :: string where
  "ann_id = ''507f1f77bcf86cd799439011''"

definition ann_oid :: oid where
  "ann_oid = [80, 127, 31, 119, 188, 248, 108, 215, 153, 67, 144, 17]"

definition ann :: document where
  "ann = [(''_id'', VOid ann_oid), (''name'', VStr ''Ann''), (''lastname'', VStr ''Lee''), (''age'', VNum 30)]"

definition store_ann :: store where
  "store_ann = \<lparr>people = [ann], pets = [], cars = [], online = True\<rparr>"

text \<open>A pet, and stores in which Ann owns it, with and without the pet itself.\<close>

definition rex_id :: string where
  "rex_id = ''aaaaaaaaaaaaaaaaaaaaaaaa''"

definition rex_oid :: oid where
  "rex_oid = [170, 170, 170, 170, 170, 170, 170, 170, 170, 170, 170, 170]"

definition rex :: document where
  "rex = [(''_id'', VOid rex_oid), (''name'', VStr ''Rex'')]"

definition store_ann_rex :: store where
  "store_ann_rex = \<lparr>people = [ann], pets = [rex], cars = [], online = True\<rparr>"

definition ann_owner :: document where
  "ann_owner = ann @ [(''petIds'', VArr [VOid rex_oid])]"

definition store_stale :: store where
  "store_stale = \<lparr>people = [ann_owner], pets = [], cars = [], online = True\<rparr>"

definition store_owner :: store where
  "store_owner = \<lparr>people = [ann_owner], pets = [rex], cars = [], online = True\<rparr>"

text \<open>A car, its driver and a second person.\<close>

definition car_oid :: oid where
  "car_oid = [187, 187, 187, 187, 187, 187, 187, 187, 187, 187, 187, 187]"

definition fiat :: document where
  "fiat = [(''_id'', VOid car_oid), (''make'', VStr ''Fiat'')]"

definition bob_oid :: oid where
  "bob_oid = [204, 204, 204, 204, 204, 204, 204, 204, 204, 204, 204, 204]"

definition bob :: document where
  "bob = [(''_id'', VOid bob_oid), (''name'', VStr ''Bob''), (''lastname'', VStr ''Ray''), (''age'', VNum 41)]"

definition ann_driver :: document where
  "ann_driver = ann @ [(''carId'', VOid car_oid)]"

definition store_driver :: store where
  "store_driver = \<lparr>people = [ann_driver, bob], pets = [], cars = [fiat], online = True\<rparr>"

text \<open>
  A creation request and the identifier the driver generates for it; stores without
  people, with three people aged 10, 20 and 30, and with a person whose age is a string.
\<close>

definition fresh_oid :: oid where
  "fresh_oid = [1, 2, 3, 4, 5, 6, 7, 8, 9, 10, 11, 12]"

definition ann_body :: document where
  "ann_body = [(''name'', VStr ''Ann''), (''lastname'', VStr ''Lee''), (''age'', VNum 30)]"




section \<open>Properties of the storage operations\<close>

lemma fld_update: "fld k (AList.update k' v d) = (if k = k' then Some v else fld k d)"
  by (simp add: fld_def update_conv')

lemma fld_delete: "fld k (AList.delete k' d) = (if k = k' then None else fld k d)"
  by (simp add: fld_def delete_conv')

lemma fld_set:
  "distinct (map fst u) \<Longrightarrow>
   fld k (fold (\<lambda>(k, v). AList.update k v) u d) = (case map_of u k of None \<Rightarrow> fld k d | Some v \<Rightarrow> Some v)"
proof (induction u arbitrary: d)
  case Nil
  then show ?case by simp
next
  case (Cons a u)
  obtain ka va where a: "a = (ka, va)" by (cases a)
  from Cons.prems a have notin: "map_of u ka = None"
    by (simp add: map_of_eq_None_iff)
  from Cons.prems have "distinct (map fst u)" by simp
  from Cons.IH [OF this, of "AList.update ka va d"] a notin show ?case
    by (auto simp: fld_update split: option.splits)
qed

lemma find_split:
  "find p ds = Some d \<Longrightarrow> \<exists>pre post. ds = pre @ d # post \<and> (\<forall>x\<in>set pre. \<not> p x) \<and> p d"
proof (induction ds)
  case Nil
  then show ?case by simp
next
  case (Cons a ds)
  show ?case
  proof (cases "p a")
    case True
    with Cons.prems have "a = d" by simp
    with True have "a # ds = [] @ d # ds \<and> (\<forall>x\<in>set []. \<not> p x) \<and> p d" by simp
    then show ?thesis by blast
  next
    case False
    with Cons obtain pre post where "ds = pre @ d # post" "\<forall>x\<in>set pre. \<not> p x" "p d"
      by auto
    with False have "a # ds = (a # pre) @ d # post \<and> (\<forall>x\<in>set (a # pre). \<not> p x) \<and> p d"
      by simp
    then show ?thesis by blast
  qed
qed

lemma update_first_split:
  "\<forall>x\<in>set pre. \<not> p x \<Longrightarrow> p d \<Longrightarrow>
   update_first p f (pre @ d # post) = (case f d of Inl e \<Rightarrow> Inl e | Inr d' \<Rightarrow> Inr (pre @ d' # post))"
  by (induction pre) (auto split: sum.splits)

lemma find_append_hit: "\<forall>x\<in>set pre. \<not> p x \<Longrightarrow> p d \<Longrightarrow> find p (pre @ d # post) = Some d"
  by (induction pre) auto

lemma delete_first_split:
  "\<forall>x\<in>set pre. \<not> p x \<Longrightarrow> p d \<Longrightarrow> delete_first p (pre @ d # post) = pre @ post"
  by (induction pre) auto

lemma delete_first_absent: "find p ds = None \<Longrightarrow> delete_first p ds = ds"
  by (induction ds) (auto split: if_splits)

lemma delete_first_subset: "set (delete_first p ds) \<subseteq> set ds"
  by (induction ds) auto

lemma delete_first_keeps: "d \<in> set ds \<Longrightarrow> \<not> p d \<Longrightarrow> d \<in> set (delete_first p ds)"
  by (induction ds) auto

lemma unique_ids_delete_first:
  "unique_ids ds \<Longrightarrow> d \<in> set (delete_first (has_id v) ds) \<Longrightarrow> \<not> has_id v d"
proof (induction ds)
  case Nil
  then show ?case by simp
next
  case (Cons a ds)
  show ?case
  proof (cases "has_id v a")
    case True
    with Cons.prems have "d \<in> set ds" and "fld ''_id'' a \<notin> fld ''_id'' ` set ds"
      by (auto simp: unique_ids_def)
    with True show ?thesis by (metis has_id_def image_eqI)
  next
    case False
    with Cons show ?thesis by (auto simp: unique_ids_def)
  qed
qed

lemma unique_ids_filter:
  "unique_ids ds \<Longrightarrow> find (has_id v) ds = Some d \<Longrightarrow> filter (has_id v) ds = [d]"
proof (induction ds)
  case Nil
  then show ?case by simp
next
  case (Cons a ds)
  show ?case
  proof (cases "has_id v a")
    case True
    with Cons.prems have "a = d" and "fld ''_id'' a \<notin> fld ''_id'' ` set ds"
      by (auto simp: unique_ids_def)
    with True have "filter (has_id v) ds = []"
      unfolding filter_empty_conv by (metis has_id_def image_eqI)
    with True \<open>a = d\<close> show ?thesis by simp
  next
    case False
    with Cons show ?thesis by (auto simp: unique_ids_def)
  qed
qed

lemma validateId_people:
  "online st \<Longrightarrow> ObjectId i = Inr x \<Longrightarrow> find_by_id (VOid x) (people st) = Some p \<Longrightarrow>
   validatePersonId st i"
  by (auto simp: validatePersonId_def validateId_def collection_def find_by_id_def list_ex_iff
      dest: find_split)

lemma ObjectId_ann: "ObjectId ann_id = Inr ann_oid"
  by (simp add: ObjectId_def ann_id_def ann_oid_def hex_digit_def)

lemma find_ann: "find_by_id (VOid ann_oid) (people store_ann) = Some ann"
  by (simp add: find_by_id_def store_ann_def ann_def has_id_def fld_def)

section \<open>The routes, verified\<close>

subsection \<open>\<^verbatim>\<open>DELETE /person/:id\<close>\<close>

text \<open>
  C5.  For every well-formed identifier, on a storage that answers,
  \<^verbatim>\<open>DELETE /person/:id\<close> answers 200 with \<^verbatim>\<open>{deletedPersonId: id}\<close>, whether or not a person
  has that identifier.  When none has it the store is left as it was.  The list
  \<^verbatim>\<open>GET /\<close> returns afterwards is the people collection left by the delete: it holds
  every person with another identifier, nothing that was not there before, and, the
  identifiers of the collection being unique, nobody with the deleted identifier.
\<close>

theorem delete_person_idempotent:
  assumes "ObjectId i = Inr x" and "online st"
  shows "fst (delete_person i st) = \<lparr>status = 200, body = VDoc [(''deletedPersonId'', VStr i)]\<rparr>
    \<and> (find_by_id (VOid x) (people st) = None \<longrightarrow> snd (delete_person i st) = st)
    \<and> fst (get_root (snd (delete_person i st)))
        = \<lparr>status = 200, body = VArr (map VDoc (people (snd (delete_person i st))))\<rparr>
    \<and> (unique_ids (people st) \<longrightarrow>
         (\<forall>d\<in>set (people (snd (delete_person i st))). \<not> has_id (VOid x) d))
    \<and> (\<forall>d\<in>set (people st). \<not> has_id (VOid x) d \<longrightarrow> d \<in> set (people (snd (delete_person i st))))
    \<and> set (people (snd (delete_person i st))) \<subseteq> set (people st)"
proof -
  let ?ps = "delete_first (has_id (VOid x)) (people st)"
  from assms have run: "delete_person i st
      = (send (VDoc [(''deletedPersonId'', VStr i)]), st\<lparr>people := ?ps\<rparr>)"
    by (simp add: delete_person_def deleteOne_def)
  have "find_by_id (VOid x) (people st) = None \<longrightarrow> st\<lparr>people := ?ps\<rparr> = st"
    by (simp add: find_by_id_def delete_first_absent)
  moreover from assms have "fst (get_root (st\<lparr>people := ?ps\<rparr>)) = \<lparr>status = 200, body = VArr (map VDoc ?ps)\<rparr>"
    by (simp add: get_root_def find_all_def send_def)
  moreover have "unique_ids (people st) \<longrightarrow> (\<forall>d\<in>set ?ps. \<not> has_id (VOid x) d)"
    using unique_ids_delete_first by blast
  moreover have "\<forall>d\<in>set (people st). \<not> has_id (VOid x) d \<longrightarrow> d \<in> set ?ps"
    using delete_first_keeps by blast
  moreover have "set ?ps \<subseteq> set (people st)"
    by (rule delete_first_subset)
  ultimately show ?thesis
    unfolding run by (simp add: send_def)
qed

theorem delete_person_idempotent_witness:
  "ObjectId ann_id = Inr ann_oid \<and> online store_ann
   \<and> fst (delete_person ann_id store_ann) = \<lparr>status = 200, body = VDoc [(''deletedPersonId'', VStr ann_id)]\<rparr>
   \<and> fst (get_root (snd (delete_person ann_id store_ann))) = \<lparr>status = 200, body = VArr []\<rparr>
   \<and> fst (delete_person ann_id (snd (delete_person ann_id store_ann)))
       = \<lparr>status = 200, body = VDoc [(''deletedPersonId'', VStr ann_id)]\<rparr>"
proof -
  have on: "online store_ann" by (simp add: store_ann_def)
  have on': "online (snd (delete_person ann_id store_ann))"
    by (simp add: delete_person_def ObjectId_ann deleteOne_def store_ann_def)
  have gone: "people (snd (delete_person ann_id store_ann)) = []"
    by (simp add: delete_person_def ObjectId_ann deleteOne_def store_ann_def ann_def has_id_def fld_def)
  from delete_person_idempotent [OF ObjectId_ann on] delete_person_idempotent [OF ObjectId_ann on']
  show ?thesis
    using on ObjectId_ann gone by simp
qed

subsection \<open>\<^verbatim>\<open>PATCH /person/:id\<close>\<close>

lemma body_model_allowed: "set (map fst b) \<subseteq> set allowedFields \<Longrightarrow> body_model b = []"
  by (auto simp: body_model_def list_ex_iff)

lemma patch_person_run:
  assumes "online st" and "ObjectId i = Inr x" and "find_by_id (VOid x) (people st) = Some p"
    and "set (map fst b) \<subseteq> set allowedFields"
  shows "\<exists>pre post. people st = pre @ p # post \<and> (\<forall>d\<in>set pre. \<not> has_id (VOid x) d)
      \<and> patch_person i b now st
        = (send (VDoc [(''updatedPersonId'', VStr i)]),
           st\<lparr>people := pre @ fold (\<lambda>(k, v). AList.update k v)
                                   (AList.update ''updatedAt'' (VNum (of_int now)) b) p # post\<rparr>)"
proof -
  from assms(3) obtain pre post where
    split: "people st = pre @ p # post" "\<forall>d\<in>set pre. \<not> has_id (VOid x) d" "has_id (VOid x) p"
    unfolding find_by_id_def by (blast dest: find_split)
  have chains: "patch_person_chains i b st = []"
    using validateId_people [OF assms(1-3)] body_model_allowed [OF assms(4)]
    by (simp add: patch_person_chains_def param_custom_def)
  have "patch_person i b now st
        = (send (VDoc [(''updatedPersonId'', VStr i)]),
           st\<lparr>people := pre @ fold (\<lambda>(k, v). AList.update k v)
                                   (AList.update ''updatedAt'' (VNum (of_int now)) b) p # post\<rparr>)"
    using assms(1,2) split
    by (simp add: patch_person_def chains updateOne_def update_first_split)
  with split show ?thesis by blast
qed

text \<open>
  C8.  A PATCH whose body has its keys among name, lastname and age, sent for a person
  that exists on a storage that answers, answers 200 with \<^verbatim>\<open>{updatedPersonId: id}\<close> and
  replaces the first person with that identifier by a document \<open>p'\<close> in which every
  provided field has the provided value, \<^verbatim>\<open>updatedAt\<close> is \<open>now\<close>, the reading of
  \<^verbatim>\<open>Date.now()\<close> taken in the call (so not below an instant \<open>t0\<close> before the call, the
  clock not running backwards), and every other field is as it was.  The other people,
  the pets and the cars are untouched.
\<close>

theorem patch_person_frame:
  assumes "online st" and "ObjectId i = Inr x" and "find_by_id (VOid x) (people st) = Some p"
    and "set (map fst b) \<subseteq> {''name'', ''lastname'', ''age''}" and "distinct (map fst b)"
    and "t0 \<le> now"
  shows "\<exists>pre post p'. people st = pre @ p # post \<and> (\<forall>d\<in>set pre. \<not> has_id (VOid x) d)
      \<and> patch_person i b now st
        = (\<lparr>status = 200, body = VDoc [(''updatedPersonId'', VStr i)]\<rparr>, st\<lparr>people := pre @ p' # post\<rparr>)
      \<and> (\<forall>k\<in>set (map fst b). fld k p' = fld k b)
      \<and> fld ''updatedAt'' p' = Some (VNum (of_int now)) \<and> (of_int t0 :: rat) \<le> of_int now
      \<and> (\<forall>k. k \<notin> set (map fst b) \<and> k \<noteq> ''updatedAt'' \<longrightarrow> fld k p' = fld k p)"
proof -
  let ?upd = "AList.update ''updatedAt'' (VNum (of_int now)) b"
  let ?p' = "fold (\<lambda>(k, v). AList.update k v) ?upd p"
  from assms(4) have allowed: "set (map fst b) \<subseteq> set allowedFields"
    by (simp add: allowedFields_def)
  from patch_person_run [OF assms(1-3) allowed, of now] obtain pre post where
    run: "people st = pre @ p # post" "\<forall>d\<in>set pre. \<not> has_id (VOid x) d"
      "patch_person i b now st = (send (VDoc [(''updatedPersonId'', VStr i)]), st\<lparr>people := pre @ ?p' # post\<rparr>)"
    by blast
  from assms(5) have "distinct (map fst ?upd)" by (rule distinct_update)
  then have look: "fld k ?p' = (case ((map_of b)(''updatedAt'' \<mapsto> VNum (of_int now))) k of
        None \<Rightarrow> fld k p | Some v \<Rightarrow> Some v)" for k
    by (simp add: fld_set update_conv')
  from assms(4) have no_stamp: "''updatedAt'' \<notin> set (map fst b)" by auto
  have provided: "\<forall>k\<in>set (map fst b). fld k ?p' = fld k b"
  proof
    fix k assume k: "k \<in> set (map fst b)"
    with no_stamp have "k \<noteq> ''updatedAt''" by blast
    moreover from k obtain v where "map_of b k = Some v"
      by (metis map_of_eq_None_iff not_Some_eq set_map)
    moreover from this have "fld k b = Some v" by (simp add: fld_def)
    ultimately show "fld k ?p' = fld k b" by (simp add: look)
  qed
  have stamp: "fld ''updatedAt'' ?p' = Some (VNum (of_int now))"
    by (simp add: look)
  have rest: "\<forall>k. k \<notin> set (map fst b) \<and> k \<noteq> ''updatedAt'' \<longrightarrow> fld k ?p' = fld k p"
  proof (intro allI impI)
    fix k assume "k \<notin> set (map fst b) \<and> k \<noteq> ''updatedAt''"
    then have "map_of b k = None" and "k \<noteq> ''updatedAt''"
      by (simp_all add: map_of_eq_None_iff)
    then show "fld k ?p' = fld k p" by (simp add: look)
  qed
  from assms(6) have "(of_int t0 :: rat) \<le> of_int now" by simp
  with run provided stamp rest show ?thesis
    unfolding send_def by blast
qed

theorem patch_person_frame_witness:
  "online store_ann \<and> ObjectId ann_id = Inr ann_oid
   \<and> find_by_id (VOid ann_oid) (people store_ann) = Some ann
   \<and> set (map fst [(''name'', VStr ''Anna'')]) \<subseteq> {''name'', ''lastname'', ''age''}
   \<and> distinct (map fst [(''name'', VStr ''Anna'')])
   \<and> (1699999999999 :: int) \<le> 1700000000000
   \<and> (\<exists>pre post p'. people store_ann = pre @ ann # post \<and> (\<forall>d\<in>set pre. \<not> has_id (VOid ann_oid) d)
      \<and> patch_person ann_id [(''name'', VStr ''Anna'')] 1700000000000 store_ann
        = (\<lparr>status = 200, body = VDoc [(''updatedPersonId'', VStr ann_id)]\<rparr>,
           store_ann\<lparr>people := pre @ p' # post\<rparr>)
      \<and> (\<forall>k\<in>set (map fst [(''name'', VStr ''Anna'')]). fld k p' = fld k [(''name'', VStr ''Anna'')])
      \<and> fld ''updatedAt'' p' = Some (VNum (of_int 1700000000000))
      \<and> (of_int 1699999999999 :: rat) \<le> of_int 1700000000000
      \<and> (\<forall>k. k \<notin> set (map fst [(''name'', VStr ''Anna'')]) \<and> k \<noteq> ''updatedAt'' \<longrightarrow> fld k p' = fld k ann))
   \<and> people (snd (patch_person ann_id [(''name'', VStr ''Anna'')] 1700000000000 store_ann))
       = [[(''_id'', VOid ann_oid), (''name'', VStr ''Anna''), (''lastname'', VStr ''Lee''),
           (''age'', VNum 30), (''updatedAt'', VNum 1700000000000)]]"
proof -
  have h1: "online store_ann" by (simp add: store_ann_def)
  have chains: "patch_person_chains ann_id [(''name'', VStr ''Anna'')] store_ann = []"
    by (simp add: patch_person_chains_def param_custom_def validateId_people [OF h1 ObjectId_ann find_ann]
        body_model_def allowedFields_def)
  have run: "people (snd (patch_person ann_id [(''name'', VStr ''Anna'')] 1700000000000 store_ann))
       = [[(''_id'', VOid ann_oid), (''name'', VStr ''Anna''), (''lastname'', VStr ''Lee''),
           (''age'', VNum 30), (''updatedAt'', VNum 1700000000000)]]"
    unfolding patch_person_def chains Let_def
    by (simp add: ObjectId_ann updateOne_def store_ann_def ann_def has_id_def fld_def)
  have h4: "set (map fst [(''name'', VStr ''Anna'')]) \<subseteq> {''name'', ''lastname'', ''age''}" by simp
  have h5: "distinct (map fst [(''name'', VStr ''Anna'')])" by simp
  have h6: "(1699999999999 :: int) \<le> 1700000000000" by simp
  from patch_person_frame [OF h1 ObjectId_ann find_ann h4 h5 h6] h1 ObjectId_ann find_ann h4 h5 h6 run
  show ?thesis by blast
qed

text \<open>
  C10.  The empty body passes the body validator, the chains of the route report
  nothing for an existing person, and the handler still updates: the person gets
  \<^verbatim>\<open>updatedAt\<close> and nothing else, and the answer is 200 with \<^verbatim>\<open>{updatedPersonId: id}\<close>.
\<close>

theorem patch_person_empty_body:
  assumes "online st" and "ObjectId i = Inr x" and "find_by_id (VOid x) (people st) = Some p"
  shows "body_model [] = [] \<and> patch_person_chains i [] st = []
      \<and> (\<exists>pre post. people st = pre @ p # post \<and> (\<forall>d\<in>set pre. \<not> has_id (VOid x) d)
          \<and> patch_person i [] now st
            = (\<lparr>status = 200, body = VDoc [(''updatedPersonId'', VStr i)]\<rparr>,
               st\<lparr>people := pre @ AList.update ''updatedAt'' (VNum (of_int now)) p # post\<rparr>))"
proof -
  have model: "body_model [] = []" by (simp add: body_model_def)
  with validateId_people [OF assms] have chains: "patch_person_chains i [] st = []"
    by (simp add: patch_person_chains_def param_custom_def)
  have "set (map fst ([] :: document)) \<subseteq> set allowedFields" by simp
  from patch_person_run [OF assms this, of now] model chains show ?thesis
    by (simp add: send_def)
qed

theorem patch_person_empty_body_witness:
  "online store_ann \<and> ObjectId ann_id = Inr ann_oid
   \<and> find_by_id (VOid ann_oid) (people store_ann) = Some ann
   \<and> patch_person_chains ann_id [] store_ann = []
   \<and> patch_person ann_id [] 1700000000000 store_ann
       = (\<lparr>status = 200, body = VDoc [(''updatedPersonId'', VStr ann_id)]\<rparr>,
          store_ann\<lparr>people := [ann @ [(''updatedAt'', VNum 1700000000000)]]\<rparr>)"
proof -
  have h1: "online store_ann" by (simp add: store_ann_def)
  from patch_person_empty_body [OF h1 ObjectId_ann find_ann, of 1700000000000]
  obtain pre post where
    split: "people store_ann = pre @ ann # post"
    and run: "patch_person ann_id [] 1700000000000 store_ann
            = (\<lparr>status = 200, body = VDoc [(''updatedPersonId'', VStr ann_id)]\<rparr>,
               store_ann\<lparr>people := pre @ AList.update ''updatedAt'' (VNum (of_int 1700000000000)) ann # post\<rparr>)"
    and chains: "patch_person_chains ann_id [] store_ann = []"
    by blast
  from split have "pre = [] \<and> post = []"
    by (cases pre) (simp_all add: store_ann_def)
  moreover have "AList.update ''updatedAt'' (VNum 1700000000000) ann = ann @ [(''updatedAt'', VNum 1700000000000)]"
    by (simp add: ann_def)
  ultimately show ?thesis
    using run chains h1 ObjectId_ann find_ann by simp
qed

text \<open>
  C1.  The specification keeps the stored age within 1 and 150 after every successful
  insert or update.  The chains of \<^verbatim>\<open>PATCH /person/:id\<close> check the identifier and the keys of the
  body, never the value of \<^verbatim>\<open>age\<close>: the body \<^verbatim>\<open>{age: 999}\<close> passes, the handler answers
  200 and the person is stored with age 999.  \<^verbatim>\<open>POST /\<close> refuses the same age.
\<close>

theorem patch_person_age_unchecked:
  "patch_person_chains ann_id [(''age'', VNum 999)] store_ann = []
   \<and> patch_person ann_id [(''age'', VNum 999)] 1700000000000 store_ann
       = (\<lparr>status = 200, body = VDoc [(''updatedPersonId'', VStr ann_id)]\<rparr>,
          \<lparr>people = [[(''_id'', VOid ann_oid), (''name'', VStr ''Ann''), (''lastname'', VStr ''Lee''),
                      (''age'', VNum 999), (''updatedAt'', VNum 1700000000000)]],
           pets = [], cars = [], online = True\<rparr>)
   \<and> post_root_chains [(''name'', VStr ''Ann''), (''lastname'', VStr ''Lee''), (''age'', VNum 999)] \<noteq> []"
proof -
  have chains: "patch_person_chains ann_id [(''age'', VNum 999)] store_ann = []"
    by (simp add: patch_person_chains_def param_custom_def validatePersonId_def validateId_def
        ObjectId_ann collection_def store_ann_def ann_def has_id_def fld_def body_model_def
        allowedFields_def)
  have run: "patch_person ann_id [(''age'', VNum 999)] 1700000000000 store_ann
       = (\<lparr>status = 200, body = VDoc [(''updatedPersonId'', VStr ann_id)]\<rparr>,
          \<lparr>people = [[(''_id'', VOid ann_oid), (''name'', VStr ''Ann''), (''lastname'', VStr ''Lee''),
                      (''age'', VNum 999), (''updatedAt'', VNum 1700000000000)]],
           pets = [], cars = [], online = True\<rparr>)"
    unfolding patch_person_def chains Let_def
    by (simp add: ObjectId_ann updateOne_def store_ann_def ann_def has_id_def fld_def send_def)
  have "post_root_chains [(''name'', VStr ''Ann''), (''lastname'', VStr ''Lee''), (''age'', VNum 999)] \<noteq> []"
    by (simp add: post_root_chains_def body_isFloat_def isFloat_def fld_def)
  with chains run show ?thesis by simp
qed

subsection \<open>\<^verbatim>\<open>POST /person/:id/pet/:petId\<close>\<close>

lemma ObjectId_rex: "ObjectId rex_id = Inr rex_oid"
  by (simp add: ObjectId_def rex_id_def rex_oid_def hex_digit_def)

lemma validateId_pets:
  "online st \<Longrightarrow> ObjectId i = Inr x \<Longrightarrow> list_ex (has_id (VOid x)) (pets st) \<Longrightarrow>
   validatePetId st i"
  by (simp add: validatePetId_def validateId_def collection_def)

lemma push_petIds:
  "petIds p = Some xs \<Longrightarrow>
   apply_update (Push ''petIds'' v) p = Inr (AList.update ''petIds'' (VArr (xs @ [v])) p)"
  by (auto simp: petIds_def split: option.splits val.splits)

lemma petIds_update: "petIds (AList.update ''petIds'' (VArr xs) p) = Some xs"
  by (simp add: petIds_def fld_update)

lemma has_id_update: "k \<noteq> ''_id'' \<Longrightarrow> has_id v (AList.update k w p) = has_id v p"
  by (simp add: has_id_def fld_update)

lemma post_person_pet_run:
  assumes "online st" and "ObjectId i = Inr x" and "ObjectId petId = Inr q"
    and "find_by_id (VOid x) (people st) = Some p"
    and "list_ex (has_id (VOid q)) (pets st)"
    and "petIds p = Some xs"
  shows "\<exists>pre post. people st = pre @ p # post \<and> (\<forall>d\<in>set pre. \<not> has_id (VOid x) d)
      \<and> post_person_pet i petId st
        = (send (VDoc [(''addedPetId'', VStr petId), (''updatedPersonId'', VStr i)]),
           st\<lparr>people := pre @ AList.update ''petIds'' (VArr (xs @ [VOid q])) p # post\<rparr>)"
proof -
  from assms(4) obtain pre post where
    split: "people st = pre @ p # post" "\<forall>d\<in>set pre. \<not> has_id (VOid x) d" "has_id (VOid x) p"
    unfolding find_by_id_def by (blast dest: find_split)
  have chains: "post_person_pet_chains i petId st = []"
    using validateId_people [OF assms(1,2,4)] validateId_pets [OF assms(1,3,5)]
    by (simp add: post_person_pet_chains_def param_custom_def)
  have "post_person_pet i petId st
        = (send (VDoc [(''addedPetId'', VStr petId), (''updatedPersonId'', VStr i)]),
           st\<lparr>people := pre @ AList.update ''petIds'' (VArr (xs @ [VOid q])) p # post\<rparr>)"
    using assms(1,2,3) split push_petIds [OF assms(6)]
    by (simp add: post_person_pet_def chains updateOne_def update_first_split)
  with split show ?thesis by blast
qed

text \<open>
  C6.  Attaching the same existing pet twice to an existing person, on a storage that
  answers, answers 200 both times and leaves the person with the \<^verbatim>\<open>petIds\<close> it had
  followed by the pet's identifier twice: \<^verbatim>\<open>$push\<close> appends without looking for the
  identifier, so its count in \<^verbatim>\<open>petIds\<close> grows by two.
\<close>

theorem post_person_pet_twice:
  assumes "online st" and "ObjectId i = Inr x" and "ObjectId petId = Inr q"
    and "find_by_id (VOid x) (people st) = Some p"
    and "list_ex (has_id (VOid q)) (pets st)"
    and "petIds p = Some xs"
  shows "\<exists>st1 st2 p2.
      post_person_pet i petId st
        = (\<lparr>status = 200, body = VDoc [(''addedPetId'', VStr petId), (''updatedPersonId'', VStr i)]\<rparr>, st1)
      \<and> post_person_pet i petId st1
        = (\<lparr>status = 200, body = VDoc [(''addedPetId'', VStr petId), (''updatedPersonId'', VStr i)]\<rparr>, st2)
      \<and> find_by_id (VOid x) (people st2) = Some p2
      \<and> petIds p2 = Some (xs @ [VOid q, VOid q])
      \<and> count_list (xs @ [VOid q, VOid q]) (VOid q) = count_list xs (VOid q) + 2"
proof -
  let ?r = "send (VDoc [(''addedPetId'', VStr petId), (''updatedPersonId'', VStr i)])"
  let ?p1 = "AList.update ''petIds'' (VArr (xs @ [VOid q])) p"
  let ?p2 = "AList.update ''petIds'' (VArr ((xs @ [VOid q]) @ [VOid q])) ?p1"
  from post_person_pet_run [OF assms] obtain pre post where
    first: "people st = pre @ p # post" "\<forall>d\<in>set pre. \<not> has_id (VOid x) d"
      "post_person_pet i petId st = (?r, st\<lparr>people := pre @ ?p1 # post\<rparr>)"
    by blast
  let ?st1 = "st\<lparr>people := pre @ ?p1 # post\<rparr>"
  from assms(4) have "has_id (VOid x) p"
    unfolding find_by_id_def by (blast dest: find_split)
  then have hit1: "has_id (VOid x) ?p1" by (simp add: has_id_update)
  with first(2) have found1: "find_by_id (VOid x) (people ?st1) = Some ?p1"
    by (simp add: find_by_id_def find_append_hit)
  have on1: "online ?st1" and pets1: "list_ex (has_id (VOid q)) (pets ?st1)"
    using assms(1,5) by simp_all
  from post_person_pet_run [OF on1 assms(2,3) found1 pets1 petIds_update] obtain pre' post' where
    second: "people ?st1 = pre' @ ?p1 # post'" "\<forall>d\<in>set pre'. \<not> has_id (VOid x) d"
      "post_person_pet i petId ?st1 = (?r, ?st1\<lparr>people := pre' @ ?p2 # post'\<rparr>)"
    by blast
  let ?st2 = "?st1\<lparr>people := pre' @ ?p2 # post'\<rparr>"
  from hit1 have "has_id (VOid x) ?p2" by (simp add: has_id_update)
  with second(2) have found2: "find_by_id (VOid x) (people ?st2) = Some ?p2"
    by (simp add: find_by_id_def find_append_hit)
  have ids2: "petIds ?p2 = Some (xs @ [VOid q, VOid q])"
    by (simp add: petIds_update)
  have "count_list (xs @ [VOid q, VOid q]) (VOid q) = count_list xs (VOid q) + 2"
    by (induction xs) simp_all
  with first(3) second(3) found2 ids2 show ?thesis
    unfolding send_def by blast
qed

theorem post_person_pet_twice_witness:
  "online store_ann_rex \<and> ObjectId ann_id = Inr ann_oid \<and> ObjectId rex_id = Inr rex_oid
   \<and> find_by_id (VOid ann_oid) (people store_ann_rex) = Some ann
   \<and> list_ex (has_id (VOid rex_oid)) (pets store_ann_rex)
   \<and> petIds ann = Some []
   \<and> (\<exists>st1 st2 p2.
      post_person_pet ann_id rex_id store_ann_rex
        = (\<lparr>status = 200, body = VDoc [(''addedPetId'', VStr rex_id), (''updatedPersonId'', VStr ann_id)]\<rparr>, st1)
      \<and> post_person_pet ann_id rex_id st1
        = (\<lparr>status = 200, body = VDoc [(''addedPetId'', VStr rex_id), (''updatedPersonId'', VStr ann_id)]\<rparr>, st2)
      \<and> find_by_id (VOid ann_oid) (people st2) = Some p2
      \<and> petIds p2 = Some [VOid rex_oid, VOid rex_oid])"
proof -
  have h1: "online store_ann_rex" by (simp add: store_ann_rex_def)
  have h4: "find_by_id (VOid ann_oid) (people store_ann_rex) = Some ann"
    by (simp add: find_by_id_def store_ann_rex_def ann_def has_id_def fld_def)
  have h5: "list_ex (has_id (VOid rex_oid)) (pets store_ann_rex)"
    by (simp add: store_ann_rex_def rex_def has_id_def fld_def)
  have h6: "petIds ann = Some []"
    by (simp add: petIds_def ann_def fld_def)
  from post_person_pet_twice [OF h1 ObjectId_ann ObjectId_rex h4 h5 h6]
    h1 ObjectId_ann ObjectId_rex h4 h5 h6
  show ?thesis by auto
qed

subsection \<open>\<^verbatim>\<open>GET /person/:id/pets\<close>\<close>

lemma mapM_single: "mapM f [x] = (case f x of Inl e \<Rightarrow> Inl e | Inr y \<Rightarrow> Inr [y])"
  by (simp split: sum.splits)

lemma lookup_in_array:
  "fld l d = Some (VArr ids) \<Longrightarrow>
   lookup_in foreign l out d = Inr (AList.update out (VArr (map VDoc (filter (id_in ids) foreign))) d)"
  by (simp add: lookup_in_def)

lemma embedded_ids:
  "set (map (fld ''_id'') (filter (id_in ids) ps)) = Some ` {v \<in> set ids. list_ex (has_id v) ps}"
proof (intro set_eqI iffI)
  fix w
  assume "w \<in> set (map (fld ''_id'') (filter (id_in ids) ps))"
  then obtain d where d: "d \<in> set ps" "id_in ids d" "w = fld ''_id'' d" by auto
  from d(2) obtain v where v: "fld ''_id'' d = Some v" "v \<in> set ids"
    by (auto simp: id_in_def split: option.splits)
  with d(1) have "list_ex (has_id v) ps" by (auto simp: list_ex_iff has_id_def)
  with v d(3) show "w \<in> Some ` {v \<in> set ids. list_ex (has_id v) ps}" by simp
next
  fix w
  assume "w \<in> Some ` {v \<in> set ids. list_ex (has_id v) ps}"
  then obtain v where v: "w = Some v" "v \<in> set ids" "list_ex (has_id v) ps" by auto
  from v(3) obtain d where d: "d \<in> set ps" "fld ''_id'' d = Some v"
    by (auto simp: list_ex_iff has_id_def)
  with v(2) have "id_in ids d" by (simp add: id_in_def)
  with d have "d \<in> set (filter (id_in ids) ps)" by simp
  with d(2) v(1) show "w \<in> set (map (fld ''_id'') (filter (id_in ids) ps))"
    unfolding set_map by (metis image_eqI)
qed

text \<open>
  C7, as the code has it.  For an existing person whose \<^verbatim>\<open>petIds\<close> is an array, on a
  storage that answers and whose people have unique identifiers,
  \<^verbatim>\<open>GET /person/:id/pets\<close> answers 200 with a one-element array: the person without
  \<^verbatim>\<open>petIds\<close>, with every other field as it was, and with \<^verbatim>\<open>pets\<close> holding the documents
  of the pets collection whose identifier occurs in \<^verbatim>\<open>petIds\<close>.  The identifiers of the
  embedded pets are those of \<^verbatim>\<open>petIds\<close> that some pet still has; they are all of
  \<^verbatim>\<open>petIds\<close> when each of them references a pet.
\<close>

theorem get_person_pets_embeds:
  assumes "online st" and "ObjectId i = Inr x" and "find_by_id (VOid x) (people st) = Some p"
    and "unique_ids (people st)" and "fld ''petIds'' p = Some (VArr ids)"
  shows "\<exists>p'. get_person_pets i st = (\<lparr>status = 200, body = VArr [VDoc p']\<rparr>, st)
      \<and> fld ''petIds'' p' = None
      \<and> fld ''pets'' p' = Some (VArr (map VDoc (filter (id_in ids) (pets st))))
      \<and> (\<forall>k. k \<noteq> ''petIds'' \<and> k \<noteq> ''pets'' \<longrightarrow> fld k p' = fld k p)
      \<and> set (map (fld ''_id'') (filter (id_in ids) (pets st)))
          = Some ` {v \<in> set ids. list_ex (has_id v) (pets st)}
      \<and> ((\<forall>v\<in>set ids. list_ex (has_id v) (pets st)) \<longrightarrow>
           set (map (fld ''_id'') (filter (id_in ids) (pets st))) = Some ` set ids)"
proof -
  let ?found = "VArr (map VDoc (filter (id_in ids) (pets st)))"
  let ?p' = "AList.delete ''petIds'' (AList.update ''pets'' ?found p)"
  have chains: "get_person_pets_chains i st = []"
    using validateId_people [OF assms(1-3)]
    by (simp add: get_person_pets_chains_def param_custom_def)
  from assms(3,4) have matched: "filter (has_id (VOid x)) (people st) = [p]"
    unfolding find_by_id_def by (rule unique_ids_filter [rotated])
  have "aggregate st [Match_id (VOid x), Lookup_in ''pets'' ''petIds'' ''pets'', Unset [''petIds'']]
        = Inr [?p']"
    using assms(1,5)
    by (simp add: aggregate_def matched mapM_single lookup_in_array collection_def)
  then have run: "get_person_pets i st = (\<lparr>status = 200, body = VArr [VDoc ?p']\<rparr>, st)"
    using assms(2) by (simp add: get_person_pets_def chains send_def)
  have "fld ''petIds'' ?p' = None"
    and "fld ''pets'' ?p' = Some ?found"
    and "\<forall>k. k \<noteq> ''petIds'' \<and> k \<noteq> ''pets'' \<longrightarrow> fld k ?p' = fld k p"
    by (simp_all add: fld_delete fld_update)
  moreover note embedded_ids [of ids "pets st"]
  moreover have "(\<forall>v\<in>set ids. list_ex (has_id v) (pets st)) \<longrightarrow>
      set (map (fld ''_id'') (filter (id_in ids) (pets st))) = Some ` set ids"
    unfolding embedded_ids by auto
  ultimately show ?thesis using run by blast
qed

theorem get_person_pets_embeds_witness:
  "online store_owner \<and> ObjectId ann_id = Inr ann_oid
   \<and> find_by_id (VOid ann_oid) (people store_owner) = Some ann_owner
   \<and> unique_ids (people store_owner)
   \<and> fld ''petIds'' ann_owner = Some (VArr [VOid rex_oid])
   \<and> (\<exists>p'. get_person_pets ann_id store_owner = (\<lparr>status = 200, body = VArr [VDoc p']\<rparr>, store_owner)
        \<and> fld ''petIds'' p' = None
        \<and> fld ''pets'' p' = Some (VArr [VDoc rex]))"
proof -
  have h1: "online store_owner" by (simp add: store_owner_def)
  have h3: "find_by_id (VOid ann_oid) (people store_owner) = Some ann_owner"
    by (simp add: find_by_id_def store_owner_def ann_owner_def ann_def has_id_def fld_def)
  have h4: "unique_ids (people store_owner)"
    by (simp add: unique_ids_def store_owner_def)
  have h5: "fld ''petIds'' ann_owner = Some (VArr [VOid rex_oid])"
    by (simp add: ann_owner_def ann_def fld_def)
  have "filter (id_in [VOid rex_oid]) (pets store_owner) = [rex]"
    by (simp add: store_owner_def id_in_def rex_def fld_def)
  with get_person_pets_embeds [OF h1 ObjectId_ann h3 h4 h5] h1 ObjectId_ann h3 h4 h5
  show ?thesis by auto
qed

text \<open>
  C7 as stated fails.  Ann's \<^verbatim>\<open>petIds\<close> holds the identifier of a pet that is no longer
  in the pets collection: the route answers with an empty \<^verbatim>\<open>pets\<close> array, whose
  identifiers are not those of \<^verbatim>\<open>petIds\<close>.  And for a person without \<^verbatim>\<open>petIds\<close>, in a
  store that has a pet, \<^verbatim>\<open>$in\<close> has no array to search and the route answers 500.
\<close>

theorem get_person_pets_counterexample:
  "validatePersonId store_stale ann_id
   \<and> fld ''petIds'' ann_owner = Some (VArr [VOid rex_oid])
   \<and> get_person_pets ann_id store_stale
       = (\<lparr>status = 200,
           body = VArr [VDoc [(''_id'', VOid ann_oid), (''name'', VStr ''Ann''),
                              (''lastname'', VStr ''Lee''), (''age'', VNum 30), (''pets'', VArr [])]]\<rparr>,
          store_stale)
   \<and> validatePersonId store_ann_rex ann_id
   \<and> fld ''petIds'' ann = None
   \<and> status (fst (get_person_pets ann_id store_ann_rex)) = 500"
proof -
  have v1: "validatePersonId store_stale ann_id"
    by (simp add: validatePersonId_def validateId_def ObjectId_ann collection_def store_stale_def
        ann_owner_def ann_def has_id_def fld_def)
  have v2: "validatePersonId store_ann_rex ann_id"
    by (simp add: validatePersonId_def validateId_def ObjectId_ann collection_def store_ann_rex_def
        ann_def has_id_def fld_def)
  from v1 have c1: "get_person_pets_chains ann_id store_stale = []"
    by (simp add: get_person_pets_chains_def param_custom_def)
  from v2 have c2: "get_person_pets_chains ann_id store_ann_rex = []"
    by (simp add: get_person_pets_chains_def param_custom_def)
  have f1: "fld ''petIds'' ann_owner = Some (VArr [VOid rex_oid])"
    by (simp add: ann_owner_def ann_def fld_def)
  have f2: "fld ''petIds'' ann = None"
    by (simp add: ann_def fld_def)
  have r1: "get_person_pets ann_id store_stale
       = (\<lparr>status = 200,
           body = VArr [VDoc [(''_id'', VOid ann_oid), (''name'', VStr ''Ann''),
                              (''lastname'', VStr ''Lee''), (''age'', VNum 30), (''pets'', VArr [])]]\<rparr>,
          store_stale)"
    unfolding get_person_pets_def c1 Let_def
    by (simp add: ObjectId_ann aggregate_def store_stale_def ann_owner_def
        ann_def has_id_def fld_def collection_def lookup_in_def send_def)
  have r2: "status (fst (get_person_pets ann_id store_ann_rex)) = 500"
    unfolding get_person_pets_def c2 Let_def
    by (simp add: ObjectId_ann aggregate_def store_ann_rex_def
        ann_def rex_def has_id_def fld_def collection_def lookup_in_def sendError_def send_status_def)
  from v1 v2 f1 f2 r1 r2 show ?thesis by simp
qed

subsection \<open>\<^verbatim>\<open>GET /person/:id/car\<close>\<close>

lemma lookup_eq_oid: "lookup_eq (Some (VOid c)) (fld ''_id'' d) = has_id (VOid c) d"
  by (auto simp: lookup_eq_def has_id_def split: option.splits)

lemma get_person_car_run:
  "online st \<Longrightarrow>
   get_person_car i st
   = (send (VArr (map VDoc (map (\<lambda>d. AList.delete ''carId''
        (AList.update ''car''
          (VArr (map VDoc (filter (\<lambda>c. lookup_eq (fld ''carId'' d) (fld ''_id'' c)) (cars st)))) d))
        (people st)))), st)"
  by (simp add: get_person_car_def aggregate_def collection_def comp_def)

text \<open>
  C3.  On a storage that answers, \<^verbatim>\<open>GET /person/:id/car\<close> gives the same answer for
  every identifier in the path, well-formed or not: 200 with one document for each person
  of the collection, in order.  Each is the person without \<^verbatim>\<open>carId\<close>, with every other
  field as it was, and with \<^verbatim>\<open>car\<close> holding the cars that the \<^verbatim>\<open>$lookup\<close> matches with the
  person's \<^verbatim>\<open>carId\<close>; for a \<^verbatim>\<open>carId\<close> that is an identifier these are the cars whose
  \<^verbatim>\<open>_id\<close> equals it.
\<close>

theorem get_person_car_unscoped:
  assumes "online st"
  shows "get_person_car i st = get_person_car j st
    \<and> (\<exists>out. get_person_car i st = (\<lparr>status = 200, body = VArr (map VDoc out)\<rparr>, st)
        \<and> length out = length (people st)
        \<and> (\<forall>n<length (people st).
             fld ''carId'' (out ! n) = None
           \<and> fld ''car'' (out ! n)
               = Some (VArr (map VDoc (filter (\<lambda>c. lookup_eq (fld ''carId'' (people st ! n)) (fld ''_id'' c))
                                         (cars st))))
           \<and> (\<forall>c. fld ''carId'' (people st ! n) = Some (VOid c) \<longrightarrow>
                 fld ''car'' (out ! n) = Some (VArr (map VDoc (filter (has_id (VOid c)) (cars st)))))
           \<and> (\<forall>k. k \<noteq> ''carId'' \<and> k \<noteq> ''car'' \<longrightarrow> fld k (out ! n) = fld k (people st ! n))))"
proof -
  let ?join = "\<lambda>d. VArr (map VDoc (filter (\<lambda>c. lookup_eq (fld ''carId'' d) (fld ''_id'' c)) (cars st)))"
  let ?out = "map (\<lambda>d. AList.delete ''carId'' (AList.update ''car'' (?join d) d)) (people st)"
  have same: "get_person_car i st = get_person_car j st"
    by (simp add: get_person_car_def)
  have run: "get_person_car i st = (\<lparr>status = 200, body = VArr (map VDoc ?out)\<rparr>, st)"
    using get_person_car_run [OF assms, of i] by (simp add: send_def)
  have len: "length ?out = length (people st)" by simp
  have each: "\<forall>n<length (people st).
             fld ''carId'' (?out ! n) = None
           \<and> fld ''car'' (?out ! n) = Some (?join (people st ! n))
           \<and> (\<forall>c. fld ''carId'' (people st ! n) = Some (VOid c) \<longrightarrow>
                 fld ''car'' (?out ! n) = Some (VArr (map VDoc (filter (has_id (VOid c)) (cars st)))))
           \<and> (\<forall>k. k \<noteq> ''carId'' \<and> k \<noteq> ''car'' \<longrightarrow> fld k (?out ! n) = fld k (people st ! n))"
    by (simp add: fld_delete fld_update lookup_eq_oid)
  from same run len each show ?thesis by blast
qed

theorem get_person_car_unscoped_witness:
  "online store_driver
   \<and> get_person_car ''xyz'' store_driver = get_person_car ann_id store_driver
   \<and> get_person_car ''xyz'' store_driver
       = (\<lparr>status = 200,
           body = VArr [VDoc (ann @ [(''car'', VArr [VDoc fiat])]), VDoc (bob @ [(''car'', VArr [])])]\<rparr>,
          store_driver)"
proof -
  have h1: "online store_driver" by (simp add: store_driver_def)
  have "get_person_car ''xyz'' store_driver
       = (\<lparr>status = 200,
           body = VArr [VDoc (ann @ [(''car'', VArr [VDoc fiat])]), VDoc (bob @ [(''car'', VArr [])])]\<rparr>,
          store_driver)"
    by (simp add: get_person_car_run [OF h1] send_def)
      (simp add: store_driver_def ann_driver_def ann_def bob_def fiat_def lookup_eq_def fld_def
        car_oid_def bob_oid_def ann_oid_def)
  with get_person_car_unscoped [OF h1, of "''xyz''" ann_id] h1 show ?thesis by simp
qed

subsection \<open>\<^verbatim>\<open>POST /\<close>\<close>

lemma post_root_chains_valid:
  "fld ''name'' b = Some (VStr n) \<Longrightarrow> fld ''lastname'' b = Some (VStr l) \<Longrightarrow>
   fld ''age'' b = Some (VNum a) \<Longrightarrow> 1 \<le> a \<Longrightarrow> a \<le> 150 \<Longrightarrow> post_root_chains b = []"
  by (simp add: post_root_chains_def body_exists_def body_isString_def body_isFloat_def isFloat_def)

lemma Person_valid:
  "fld ''name'' b = Some n \<Longrightarrow> fld ''lastname'' b = Some l \<Longrightarrow> fld ''age'' b = Some a \<Longrightarrow>
   Person b = [(''name'', n), (''lastname'', l), (''age'', a)]"
  by (simp add: Person_def)

text \<open>
  What \<^verbatim>\<open>POST /\<close> stores when its chains pass: an age that is a number from 1 to 150, or
  a string that \<^verbatim>\<open>isFloat\<close> reads as one.
\<close>

lemma post_root_age_checked:
  assumes "post_root_chains b = []"
  shows "\<exists>r. 1 \<le> r \<and> r \<le> 150
      \<and> (fld ''age'' (Person b) = Some (VNum r)
          \<or> (\<exists>s. fld ''age'' (Person b) = Some (VStr s) \<and> float_string s = Some r))"
proof -
  from assms have ok: "isFloat 1 150 (fld ''age'' b)"
    by (simp add: post_root_chains_def body_isFloat_def split: if_splits)
  then obtain v where v: "fld ''age'' b = Some v"
    by (cases "fld ''age'' b") (simp_all add: isFloat_def)
  then have kept: "fld ''age'' (Person b) = Some v"
    by (simp add: Person_def fld_def split: option.splits)
  from ok v show ?thesis
    unfolding kept by (cases v) (auto simp: isFloat_def split: option.splits)
qed

text \<open>
  C4.  For every body whose name and lastname are strings and whose age is a number from
  1 to 150, on a storage that answers and with a generated identifier that no person has
  yet, \<^verbatim>\<open>POST /\<close> appends exactly one document to the people collection and answers 200
  with that document: the new identifier and the submitted name, lastname and age,
  unchanged.
\<close>

theorem post_root_creates:
  assumes "online st"
    and "fld ''name'' b = Some (VStr n)" and "fld ''lastname'' b = Some (VStr l)"
    and "fld ''age'' b = Some (VNum a)" and "1 \<le> a" and "a \<le> 150"
    and "\<not> list_ex (has_id (VOid fresh)) (people st)"
  shows "\<exists>person. post_root b fresh st
            = (\<lparr>status = 200, body = VDoc person\<rparr>, st\<lparr>people := people st @ [person]\<rparr>)
      \<and> person = [(''name'', VStr n), (''lastname'', VStr l), (''age'', VNum a), (''_id'', VOid fresh)]
      \<and> fld ''_id'' person = Some (VOid fresh)
      \<and> fld ''name'' person = fld ''name'' b
      \<and> fld ''lastname'' person = fld ''lastname'' b
      \<and> fld ''age'' person = fld ''age'' b
      \<and> length (people (snd (post_root b fresh st))) = length (people st) + 1"
proof -
  let ?person = "[(''name'', VStr n), (''lastname'', VStr l), (''age'', VNum a), (''_id'', VOid fresh)]"
  have chains: "post_root_chains b = []"
    using assms(2-6) by (rule post_root_chains_valid)
  have person: "Person b = [(''name'', VStr n), (''lastname'', VStr l), (''age'', VNum a)]"
    using assms(2-4) by (rule Person_valid)
  have "insertOne st fresh (Person b) = Inr (?person, st\<lparr>people := people st @ [?person]\<rparr>)"
    using assms(1,7) by (simp add: insertOne_def person fld_def Let_def)
  then have run: "post_root b fresh st
      = (\<lparr>status = 200, body = VDoc ?person\<rparr>, st\<lparr>people := people st @ [?person]\<rparr>)"
    by (simp add: post_root_def chains send_def)
  have "fld ''_id'' ?person = Some (VOid fresh)" and "fld ''name'' ?person = fld ''name'' b"
    and "fld ''lastname'' ?person = fld ''lastname'' b" and "fld ''age'' ?person = fld ''age'' b"
    using assms(2-4) by (simp_all add: fld_def)
  moreover have "length (people (snd (post_root b fresh st))) = length (people st) + 1"
    by (simp add: run)
  ultimately show ?thesis using run by blast
qed

theorem post_root_creates_witness:
  "online store_ann
   \<and> fld ''name'' ann_body = Some (VStr ''Ann'') \<and> fld ''lastname'' ann_body = Some (VStr ''Lee'')
   \<and> fld ''age'' ann_body = Some (VNum 30) \<and> (1 :: rat) \<le> 30 \<and> (30 :: rat) \<le> 150
   \<and> \<not> list_ex (has_id (VOid fresh_oid)) (people store_ann)
   \<and> post_root ann_body fresh_oid store_ann
       = (\<lparr>status = 200, body = VDoc (ann_body @ [(''_id'', VOid fresh_oid)])\<rparr>,
          store_ann\<lparr>people := [ann, ann_body @ [(''_id'', VOid fresh_oid)]]\<rparr>)"
proof -
  have h1: "online store_ann" by (simp add: store_ann_def)
  have h2: "fld ''name'' ann_body = Some (VStr ''Ann'')"
    and h3: "fld ''lastname'' ann_body = Some (VStr ''Lee'')"
    and h4: "fld ''age'' ann_body = Some (VNum 30)"
    by (simp_all add: ann_body_def fld_def)
  have h5: "(1 :: rat) \<le> 30" and h6: "(30 :: rat) \<le> 150" by simp_all
  have h7: "\<not> list_ex (has_id (VOid fresh_oid)) (people store_ann)"
    by (simp add: store_ann_def ann_def has_id_def fld_def fresh_oid_def ann_oid_def)
  have ps: "people store_ann = [ann]" by (simp add: store_ann_def)
  from post_root_creates [OF h1 h2 h3 h4 h5 h6 h7] h1 h2 h3 h4 h5 h6 h7
  show ?thesis by (auto simp: ann_body_def ps)
qed

subsection \<open>\<^verbatim>\<open>GET /average/age\<close>\<close>






subsection \<open>Validation before the handler\<close>

text \<open>
  The handlers of \<^verbatim>\<open>POST /\<close>, \<^verbatim>\<open>PATCH /person/:id\<close>, \<^verbatim>\<open>POST /person/:id/pet/:petId\<close>,
  \<^verbatim>\<open>GET /person/:id/pets\<close> and \<^verbatim>\<open>POST /person/:id/car/:carId\<close> read the result of their
  chains first: when a chain has failed they answer 400 with the failures and leave the
  store as it was.
\<close>

lemma checked_routes_reject:
  "(post_root_chains b \<noteq> [] \<longrightarrow> post_root b fresh st = (invalid (post_root_chains b), st))
   \<and> (patch_person_chains i b st \<noteq> [] \<longrightarrow>
        patch_person i b now st = (invalid (patch_person_chains i b st), st))
   \<and> (post_person_pet_chains i petId st \<noteq> [] \<longrightarrow>
        post_person_pet i petId st = (invalid (post_person_pet_chains i petId st), st))
   \<and> (get_person_pets_chains i st \<noteq> [] \<longrightarrow>
        get_person_pets i st = (invalid (get_person_pets_chains i st), st))
   \<and> (post_person_car_chains i carId st \<noteq> [] \<longrightarrow>
        post_person_car i carId st = (invalid (post_person_car_chains i carId st), st))"
  by (simp add: post_root_def patch_person_def post_person_pet_def get_person_pets_def
      post_person_car_def Let_def)

lemma invalid_status: "status (invalid errors) = 400"
  by (simp add: invalid_def send_status_def)

text \<open>
  C2.  The specification has every route answer 400 when a declared validator fails,
  the two routes below in particular.  Their handlers never read the result of the chain they
  declare.  With the malformed identifier \<^verbatim>\<open>xyz\<close> the chain fails, yet
  \<^verbatim>\<open>GET /person/xyz/car\<close> runs its aggregation and answers 200 with every person, and
  \<^verbatim>\<open>DELETE /person/xyz\<close> reaches \<^verbatim>\<open>ObjectId\<close>, which throws, and answers through
  \<^verbatim>\<open>sendError\<close>.  With a well-formed identifier that no person has, the chain fails
  too and \<^verbatim>\<open>DELETE\<close> answers 200.
\<close>

theorem declared_validators_unchecked:
  "get_person_car_chains ''xyz'' store_ann \<noteq> []
   \<and> get_person_car ''xyz'' store_ann
       = (\<lparr>status = 200, body = VArr [VDoc (ann @ [(''car'', VArr [])])]\<rparr>, store_ann)
   \<and> delete_person_chains ''xyz'' store_ann \<noteq> []
   \<and> status (fst (delete_person ''xyz'' store_ann)) = 500
   \<and> delete_person_chains rex_id store_ann \<noteq> []
   \<and> delete_person rex_id store_ann
       = (\<lparr>status = 200, body = VDoc [(''deletedPersonId'', VStr rex_id)]\<rparr>, store_ann)"
proof -
  have bad: "ObjectId ''xyz'' = Inl BSONTypeError"
    by (simp add: ObjectId_def)
  have absent: "\<not> validatePersonId store_ann rex_id"
    by (simp add: validatePersonId_def validateId_def ObjectId_rex collection_def store_ann_def
        ann_def has_id_def fld_def rex_oid_def ann_oid_def)
  have c1: "get_person_car_chains ''xyz'' store_ann \<noteq> []"
    by (simp add: get_person_car_chains_def param_custom_def validatePersonId_def validateId_def bad)
  have c2: "delete_person_chains ''xyz'' store_ann \<noteq> []"
    by (simp add: delete_person_chains_def param_custom_def validatePersonId_def validateId_def bad)
  have c3: "delete_person_chains rex_id store_ann \<noteq> []"
    using absent by (simp add: delete_person_chains_def param_custom_def)
  have r1: "get_person_car ''xyz'' store_ann
       = (\<lparr>status = 200, body = VArr [VDoc (ann @ [(''car'', VArr [])])]\<rparr>, store_ann)"
    by (simp add: get_person_car_def aggregate_def store_ann_def ann_def collection_def fld_def
        send_def)
  have r2: "status (fst (delete_person ''xyz'' store_ann)) = 500"
    by (simp add: delete_person_def bad sendError_def send_status_def)
  have r3: "delete_person rex_id store_ann
       = (\<lparr>status = 200, body = VDoc [(''deletedPersonId'', VStr rex_id)]\<rparr>, store_ann)"
    by (simp add: delete_person_def ObjectId_rex deleteOne_def store_ann_def ann_def has_id_def
        fld_def send_def rex_oid_def ann_oid_def)
  from c1 c2 c3 r1 r2 r3 show ?thesis by simp
qed

end
